theory Spec2Isabelle
  imports Main "HOL-Library.AList" "HOL-Library.Sublist"
begin

section \<open>Errors\<close>

text \<open>
  The exceptions that \<^verbatim>\<open>job_output.py\<close> raises itself or lets through from the
  libraries it calls. \<open>LogAlreadyExistsError\<close> is the class of the source and carries
  its message; the file-system ones are the subclasses of Python's \<open>OSError\<close> that the
  modelled calls raise (\<open>InvalidArgument\<close> and \<open>DirectoryNotEmpty\<close> stand for the plain
  \<open>OSError\<close> with \<open>EINVAL\<close> and \<open>ENOTEMPTY\<close>); \<open>ValueError\<close> is what every system call
  raises on a path with an embedded null byte; \<open>AttributeError\<close> is an attribute access
  on \<open>None\<close>; \<open>DeserializationError\<close> is what \<open>torch.load\<close> raises on a file it cannot
  read back.
\<close>

datatype error =
    LogAlreadyExistsError string
  | FileExistsError
  | FileNotFoundError
  | NotADirectoryError
  | IsADirectoryError
  | InvalidArgument
  | DirectoryNotEmpty
  | ValueError
  | AttributeError
  | DeserializationError

definition is_os_error :: "error \<Rightarrow> bool" where
  "is_os_error e \<longleftrightarrow>
     e = FileExistsError \<or> e = FileNotFoundError \<or> e = NotADirectoryError \<or>
     e = IsADirectoryError \<or> e = InvalidArgument \<or> e = DirectoryNotEmpty"

section \<open>The file system\<close>

text \<open>
  The file system is the tree below the root directory: a regular file with its content,
  or a directory with its entries (an association list read with \<open>map_of\<close>). A location
  is the list of entry names that leads from the root to a node. There are no symbolic
  links, permissions or limits on names and space in this model.
\<close>

type_synonym loc = "string list"

datatype node = File string | Dir "(string \<times> node) list"

text \<open>
  \<open>lookup\<close> reads the node at a location: \<open>ENOTDIR\<close> when the way passes through a
  regular file, \<open>ENOENT\<close> when an entry is missing.
\<close>

fun lookup :: "node \<Rightarrow> loc \<Rightarrow> error + node" where
  "lookup n [] = Inr n"
| "lookup (File c) (x # xs) = Inl NotADirectoryError"
| "lookup (Dir es) (x # xs) =
     (case map_of es x of None \<Rightarrow> Inl FileNotFoundError | Some k \<Rightarrow> lookup k xs)"

text \<open>
  \<open>update_at f q v\<close> binds the last name of \<open>q\<close> in its parent directory to the node
  \<open>v\<close>, or removes the entry when \<open>v\<close> is \<open>None\<close>. It changes nothing when the parent is
  not a directory: the operations below call it only where it is one.
\<close>

fun update_at :: "node \<Rightarrow> loc \<Rightarrow> node option \<Rightarrow> node" where
  "update_at n [] v = (case v of None \<Rightarrow> n | Some k \<Rightarrow> k)"
| "update_at (File c) (x # xs) v = File c"
| "update_at (Dir es) [x] v =
     Dir (case v of None \<Rightarrow> AList.delete x es | Some k \<Rightarrow> AList.update x k es)"
| "update_at (Dir es) (x # y # ys) v =
     (case map_of es x of
        None \<Rightarrow> Dir es
      | Some k \<Rightarrow> Dir (AList.update x (update_at k (y # ys) v) es))"

subsection \<open>System calls at a location\<close>

text \<open>
  What \<open>mkdir\<close>, \<open>open\<close> for writing, \<open>unlink\<close> and \<open>rename\<close> do once the kernel has
  found the location the path names. \<open>write_at f q g\<close> opens the file at \<open>q\<close>, creating
  it when it is missing and its parent is a directory, and leaves it with the content
  \<open>g\<close> of the old one (of the empty content for a new file).
\<close>

definition mkdir_at :: "node \<Rightarrow> loc \<Rightarrow> error + node" where
  "mkdir_at f q =
     (case lookup f q of
        Inr k \<Rightarrow> Inl FileExistsError
      | Inl e \<Rightarrow>
          (case lookup f (butlast q) of
             Inl e' \<Rightarrow> Inl e'
           | Inr k \<Rightarrow>
               (case k of
                  File c \<Rightarrow> Inl NotADirectoryError
                | Dir es \<Rightarrow> Inr (update_at f q (Some (Dir []))))))"

definition write_at :: "node \<Rightarrow> loc \<Rightarrow> (string \<Rightarrow> string) \<Rightarrow> error + node" where
  "write_at f q g =
     (case lookup f q of
        Inr k \<Rightarrow>
          (case k of
             File c \<Rightarrow> Inr (update_at f q (Some (File (g c))))
           | Dir es \<Rightarrow> Inl IsADirectoryError)
      | Inl e \<Rightarrow>
          (case lookup f (butlast q) of
             Inr k \<Rightarrow>
               (case k of
                  Dir es \<Rightarrow> Inr (update_at f q (Some (File (g []))))
                | File c \<Rightarrow> Inl NotADirectoryError)
           | Inl e' \<Rightarrow> Inl e'))"

definition unlink_at :: "node \<Rightarrow> loc \<Rightarrow> error + node" where
  "unlink_at f q =
     (case lookup f q of
        Inl e \<Rightarrow> Inl e
      | Inr k \<Rightarrow>
          (case k of
             File c \<Rightarrow> Inr (update_at f q None)
           | Dir es \<Rightarrow> Inl IsADirectoryError))"

text \<open>
  \<open>rename\<close> moves the source entry to the target in one step. A regular file replaces a
  regular file; a directory replaces only an empty directory and cannot move below
  itself.
\<close>

definition rename_at :: "node \<Rightarrow> loc \<Rightarrow> loc \<Rightarrow> error + node" where
  "rename_at f src dst =
     (case lookup f src of
        Inl e \<Rightarrow> Inl e
      | Inr k \<Rightarrow>
          (let moved = update_at (update_at f src None) dst (Some k) in
           case lookup f dst of
             Inr t \<Rightarrow>
               (case (k, t) of
                  (File c, File c') \<Rightarrow> Inr moved
                | (File c, Dir es) \<Rightarrow> Inl IsADirectoryError
                | (Dir es, File c') \<Rightarrow> Inl NotADirectoryError
                | (Dir es, Dir es') \<Rightarrow>
                    if strict_prefix src dst then Inl InvalidArgument
                    else if src = dst then Inr f
                    else if es' = [] then Inr moved
                    else Inl DirectoryNotEmpty)
           | Inl e \<Rightarrow>
               (case lookup f (butlast dst) of
                  Inl e' \<Rightarrow> Inl e'
                | Inr t \<Rightarrow>
                    (case t of
                       File c \<Rightarrow> Inl NotADirectoryError
                     | Dir es \<Rightarrow>
                         (case k of
                            File c \<Rightarrow> Inr moved
                          | Dir es' \<Rightarrow>
                              if strict_prefix src dst then Inl InvalidArgument
                              else Inr moved)))))"

section \<open>Paths\<close>

text \<open>
  A \<open>pathlib.Path\<close> on POSIX: its anchor (none, \<open>/\<close>, or the \<open>//\<close> that POSIX keeps
  apart) and its parts. The parts never hold an empty name or \<open>.\<close>, which the parser
  drops; \<open>..\<close> stays a part and is followed by the kernel.

  \<open>split_slash\<close> is \<open>str.split('/')\<close>. \<open>truediv\<close> is the operator \<open>/\<close> with a string on
  the right: an operand that starts with \<open>/\<close> replaces the path, any other appends its
  parts.
\<close>

datatype anchor = Relative | Root | Root2

datatype path = Path anchor "string list"

fun parts :: "path \<Rightarrow> string list" where
  "parts (Path a cs) = cs"

fun split_slash :: "string \<Rightarrow> string list" where
  "split_slash [] = [] # []"
| "split_slash (c # s) =
     (if c = CHR ''/'' then [] # split_slash s
      else (case split_slash s of [] \<Rightarrow> [c] # [] | x # xs \<Rightarrow> (c # x) # xs))"

definition parts_of :: "string \<Rightarrow> string list" where
  "parts_of s = filter (\<lambda>x. x \<noteq> [] \<and> x \<noteq> ''.'') (split_slash s)"

definition anchor_of :: "string \<Rightarrow> anchor" where
  "anchor_of s =
     (case s of
        [] \<Rightarrow> Relative
      | c1 # r1 \<Rightarrow>
          if c1 \<noteq> CHR ''/'' then Relative
          else (case r1 of
                  [] \<Rightarrow> Root
                | c2 # r2 \<Rightarrow>
                    if c2 \<noteq> CHR ''/'' then Root
                    else (case r2 of
                            [] \<Rightarrow> Root2
                          | c3 # r3 \<Rightarrow> if c3 = CHR ''/'' then Root else Root2)))"

definition parse_path :: "string \<Rightarrow> path" where
  "parse_path s = Path (anchor_of s) (parts_of s)"

fun truediv :: "path \<Rightarrow> string \<Rightarrow> path" where
  "truediv (Path a cs) s =
     (if anchor_of s = Relative then Path a (cs @ parts_of s) else parse_path s)"

text \<open>\<open>Path.parent\<close>, \<open>Path.name\<close> and \<open>str(path)\<close>.\<close>

fun path_parent :: "path \<Rightarrow> path" where
  "path_parent (Path a cs) = Path a (butlast cs)"

fun path_name :: "path \<Rightarrow> string" where
  "path_name (Path a cs) = (if cs = [] then [] else last cs)"

fun join_slash :: "string list \<Rightarrow> string" where
  "join_slash [] = []"
| "join_slash [c] = c"
| "join_slash (c # d # ds) = c @ ''/'' @ join_slash (d # ds)"

fun path_str :: "path \<Rightarrow> string" where
  "path_str (Path a cs) =
     (case a of
        Relative \<Rightarrow> (if cs = [] then ''.'' else join_slash cs)
      | Root \<Rightarrow> ''/'' @ join_slash cs
      | Root2 \<Rightarrow> ''//'' @ join_slash cs)"

subsection \<open>Resolution\<close>

text \<open>
  How the kernel finds the location a path names, from the root for an anchored path and
  from the working directory \<open>wd\<close> otherwise. \<open>walk\<close> follows parts that all have to be
  directories; \<open>..\<close> leads to the parent, which for the root is the root. \<open>locate\<close>
  follows all parts but the last and gives the location the last part names there,
  whether it exists or not. A path with a null byte is refused before any look-up.
\<close>

fun has_nul :: "path \<Rightarrow> bool" where
  "has_nul (Path a cs) = list_ex (\<lambda>c. CHR 0x00 \<in> set c) cs"

definition start_of :: "loc \<Rightarrow> anchor \<Rightarrow> loc" where
  "start_of wd a = (case a of Relative \<Rightarrow> wd | Root \<Rightarrow> [] | Root2 \<Rightarrow> [])"

definition step :: "loc \<Rightarrow> string \<Rightarrow> loc" where
  "step q c = (if c = ''..'' then butlast q else q @ [c])"

fun walk :: "node \<Rightarrow> loc \<Rightarrow> string list \<Rightarrow> error + loc" where
  "walk f q [] =
     (case lookup f q of
        Inl e \<Rightarrow> Inl e
      | Inr k \<Rightarrow> (case k of File c \<Rightarrow> Inl NotADirectoryError | Dir es \<Rightarrow> Inr q))"
| "walk f q (c # cs) =
     (case lookup f q of
        Inl e \<Rightarrow> Inl e
      | Inr k \<Rightarrow> (case k of File c' \<Rightarrow> Inl NotADirectoryError | Dir es \<Rightarrow> walk f (step q c) cs))"

fun locate :: "node \<Rightarrow> loc \<Rightarrow> path \<Rightarrow> error + loc" where
  "locate f wd (Path a cs) =
     (if has_nul (Path a cs) then Inl ValueError
      else (case walk f (start_of wd a) (butlast cs) of
              Inl e \<Rightarrow> Inl e
            | Inr d \<Rightarrow> Inr (if cs = [] then d else step d (last cs))))"

text \<open>
  \<open>resolve\<close> is \<open>stat\<close>: the node a path names. \<open>Path.exists()\<close>, \<open>Path.is_file()\<close> and
  \<open>Path.is_dir()\<close> answer \<open>False\<close> where \<open>stat\<close> fails.
\<close>

definition resolve :: "node \<Rightarrow> loc \<Rightarrow> path \<Rightarrow> error + node" where
  "resolve f wd p = (case locate f wd p of Inl e \<Rightarrow> Inl e | Inr q \<Rightarrow> lookup f q)"

definition path_exists :: "node \<Rightarrow> loc \<Rightarrow> path \<Rightarrow> bool" where
  "path_exists f wd p = (case resolve f wd p of Inl e \<Rightarrow> False | Inr k \<Rightarrow> True)"

definition is_file :: "node \<Rightarrow> loc \<Rightarrow> path \<Rightarrow> bool" where
  "is_file f wd p =
     (case resolve f wd p of
        Inl e \<Rightarrow> False
      | Inr k \<Rightarrow> (case k of File c \<Rightarrow> True | Dir es \<Rightarrow> False))"

definition is_dir :: "node \<Rightarrow> loc \<Rightarrow> path \<Rightarrow> bool" where
  "is_dir f wd p =
     (case resolve f wd p of
        Inl e \<Rightarrow> False
      | Inr k \<Rightarrow> (case k of File c \<Rightarrow> False | Dir es \<Rightarrow> True))"

subsection \<open>Operations on paths\<close>

text \<open>
  \<open>os_mkdir\<close> is \<open>os.mkdir\<close>, one system call: it makes the directory or fails with
  the file system as it was. \<open>mkdir_parents\<close> is \<open>Path.mkdir(parents=True,
  exist_ok=True)\<close> as pathlib writes it: try \<open>os.mkdir\<close>; on \<open>FileNotFoundError\<close> make
  the parent the same way and then the path itself with \<open>parents=False\<close>
  (\<open>mkdir_once\<close>), unless the path is its own parent; on any other \<open>OSError\<close> succeed
  when the path is a directory and raise otherwise. It is a sequence of system calls, so
  its result comes with the file system it left: directories made before an exception
  stay.
\<close>

definition os_mkdir :: "node \<Rightarrow> loc \<Rightarrow> path \<Rightarrow> error + node" where
  "os_mkdir f wd p = (case locate f wd p of Inl e \<Rightarrow> Inl e | Inr q \<Rightarrow> mkdir_at f q)"

definition mkdir_once :: "node \<Rightarrow> loc \<Rightarrow> path \<Rightarrow> error + node" where
  "mkdir_once f wd p =
     (case os_mkdir f wd p of
        Inr f' \<Rightarrow> Inr f'
      | Inl e \<Rightarrow>
          if e = FileNotFoundError then Inl e
          else if is_os_error e \<and> is_dir f wd p then Inr f
          else Inl e)"

function mkdir_parents :: "node \<Rightarrow> loc \<Rightarrow> path \<Rightarrow> (error + unit) \<times> node" where
  "mkdir_parents f wd (Path a cs) =
     (case os_mkdir f wd (Path a cs) of
        Inr f' \<Rightarrow> (Inr (), f')
      | Inl e \<Rightarrow>
          if e = FileNotFoundError then
            (if cs = [] then (Inl e, f)
             else (case mkdir_parents f wd (Path a (butlast cs)) of
                     (Inl e', f1) \<Rightarrow> (Inl e', f1)
                   | (Inr u, f1) \<Rightarrow>
                       (case mkdir_once f1 wd (Path a cs) of
                          Inl e2 \<Rightarrow> (Inl e2, f1)
                        | Inr f2 \<Rightarrow> (Inr (), f2))))
          else if is_os_error e \<and> is_dir f wd (Path a cs) then (Inr (), f)
          else (Inl e, f))"
  by pat_completeness auto
termination
  by (relation "measure (\<lambda>(f, wd, p). length (parts p))") auto

declare mkdir_parents.simps [simp del]

text \<open>
  Opening a path for writing. \<open>open_append p x\<close> is \<open>open('a+')\<close>, one write of \<open>x\<close> and
  the close; \<open>open_wb\<close> is \<open>open('wb')\<close>, which truncates, and gives back the location
  of the file that the handle writes to.
\<close>

definition open_append :: "node \<Rightarrow> loc \<Rightarrow> path \<Rightarrow> string \<Rightarrow> error + node" where
  "open_append f wd p x =
     (case locate f wd p of Inl e \<Rightarrow> Inl e | Inr q \<Rightarrow> write_at f q (\<lambda>c. c @ x))"

definition open_wb :: "node \<Rightarrow> loc \<Rightarrow> path \<Rightarrow> error + loc \<times> node" where
  "open_wb f wd p =
     (case locate f wd p of
        Inl e \<Rightarrow> Inl e
      | Inr q \<Rightarrow> (case write_at f q (\<lambda>c. []) of Inl e \<Rightarrow> Inl e | Inr f' \<Rightarrow> Inr (q, f')))"

text \<open>
  \<open>Path.unlink()\<close> and \<open>Path.rename(target)\<close>. The kernel refuses to rename a path that
  ends in \<open>..\<close> or has no part at all.
\<close>

definition unlink :: "node \<Rightarrow> loc \<Rightarrow> path \<Rightarrow> error + node" where
  "unlink f wd p = (case locate f wd p of Inl e \<Rightarrow> Inl e | Inr q \<Rightarrow> unlink_at f q)"

fun names_entry :: "path \<Rightarrow> bool" where
  "names_entry (Path a cs) \<longleftrightarrow> cs \<noteq> [] \<and> last cs \<noteq> ''..''"

definition rename :: "node \<Rightarrow> loc \<Rightarrow> path \<Rightarrow> path \<Rightarrow> error + node" where
  "rename f wd src dst =
     (case locate f wd src of
        Inl e \<Rightarrow> Inl e
      | Inr qs \<Rightarrow>
          (case locate f wd dst of
             Inl e \<Rightarrow> Inl e
           | Inr qd \<Rightarrow>
               if names_entry src \<and> names_entry dst then rename_at f qs qd
               else Inl InvalidArgument))"


text \<open>A relation between two states of the file system, used in the proofs.\<close>

definition dirs_kept :: "node \<Rightarrow> node \<Rightarrow> bool" where
  "dirs_kept f f' \<longleftrightarrow>
     (\<forall>r es. lookup f r = Inr (Dir es) \<longrightarrow> (\<exists>es'. lookup f' r = Inr (Dir es')))"

section \<open>The clock\<close>

text \<open>
  \<open>datetime.datetime.now()\<close> is a value the environment supplies; its fields are in the
  ranges the \<open>datetime\<close> class keeps (month 1 to 12, day 1 to 31, hour below 24, minute
  and second below 60). \<open>strftime('%Y-%m-%d %H:%M:%S')\<close> writes the year on four
  digits, for the years from 1000 on that a running clock returns, and every other
  field on two.
\<close>

record datetime =
  year :: nat
  month :: nat
  day :: nat
  hour :: nat
  minute :: nat
  second :: nat


definition digit :: "nat \<Rightarrow> char" where
  "digit d = ''0123456789'' ! (d mod 10)"

definition pad2 :: "nat \<Rightarrow> string" where
  "pad2 n = [digit (n div 10), digit n]"

definition pad4 :: "nat \<Rightarrow> string" where
  "pad4 n = [digit (n div 1000), digit (n div 100), digit (n div 10), digit n]"

definition strftime :: "datetime \<Rightarrow> string" where
  "strftime t =
     pad4 (year t) @ ''-'' @ pad2 (month t) @ ''-'' @ pad2 (day t) @ '' '' @
     pad2 (hour t) @ '':'' @ pad2 (minute t) @ '':'' @ pad2 (second t)"



section \<open>Streams and the process\<close>

text \<open>
  A stream object is one of the two console streams of the process, a \<open>_LogHelper\<close>
  with its \<open>path\<close> and \<open>stream\<close> fields, or a \<open>_LogSuppress\<close> with its \<open>stream\<close> field.
  The wrapped stream is whatever \<open>sys.stdout\<close> or \<open>sys.stderr\<close> held when the wrapper was
  built, which in Python may be \<open>None\<close>.
\<close>

datatype console = StdOut | StdErr

datatype stream =
    Console console
  | LogHelper path "stream option"
  | LogSuppress "stream option"

text \<open>
  The world the code acts on: the file system, the working directory of the process
  (a location), the two process-wide variables \<open>sys.stdout\<close> and \<open>sys.stderr\<close>, and the
  text that has reached each console.
\<close>

record world =
  fs :: node
  cwd :: loc
  sys_stdout :: "stream option"
  sys_stderr :: "stream option"
  console_out :: string
  console_err :: string

text \<open>The attribute \<open>.stream\<close> of a stream object; the console streams have none.\<close>

fun stream_attr :: "stream \<Rightarrow> error + stream option" where
  "stream_attr (LogHelper p s) = Inr s"
| "stream_attr (LogSuppress s) = Inr s"
| "stream_attr (Console c) = Inl AttributeError"

text \<open>
  \<open>write(x)\<close>. \<open>_LogHelper.write\<close> appends to the log file in one open and close, then
  writes to the wrapped stream; \<open>_LogSuppress.write\<close> does nothing.
\<close>

fun stream_write :: "stream \<Rightarrow> string \<Rightarrow> world \<Rightarrow> (error + unit) \<times> world" where
  "stream_write (Console StdOut) x w = (Inr (), w\<lparr>console_out := console_out w @ x\<rparr>)"
| "stream_write (Console StdErr) x w = (Inr (), w\<lparr>console_err := console_err w @ x\<rparr>)"
| "stream_write (LogHelper p s) x w =
     (case open_append (fs w) (cwd w) p x of
        Inl e \<Rightarrow> (Inl e, w)
      | Inr f \<Rightarrow>
          (case s of
             None \<Rightarrow> (Inl AttributeError, w\<lparr>fs := f\<rparr>)
           | Some t \<Rightarrow> stream_write t x (w\<lparr>fs := f\<rparr>)))"
| "stream_write (LogSuppress s) x w = (Inr (), w)"

text \<open>\<open>flush()\<close>. \<open>_LogHelper.flush\<close> flushes the wrapped stream; the model has no buffers.\<close>

fun stream_flush :: "stream \<Rightarrow> world \<Rightarrow> (error + unit) \<times> world" where
  "stream_flush (Console c) w = (Inr (), w)"
| "stream_flush (LogHelper p s) w =
     (case s of None \<Rightarrow> (Inl AttributeError, w) | Some t \<Rightarrow> stream_flush t w)"
| "stream_flush (LogSuppress s) w = (Inr (), w)"

text \<open>
  What the program does with its output: \<open>sys.stdout.write(x)\<close>, \<open>sys.stderr.write(x)\<close>
  and the two flushes, on whatever the variables hold at that moment. A sequence of them
  stops at the first exception.
\<close>

datatype output_call = Write console string | Flush console

definition current_stream :: "console \<Rightarrow> world \<Rightarrow> stream option" where
  "current_stream c w = (case c of StdOut \<Rightarrow> sys_stdout w | StdErr \<Rightarrow> sys_stderr w)"

fun perform :: "output_call \<Rightarrow> world \<Rightarrow> (error + unit) \<times> world" where
  "perform (Write c x) w =
     (case current_stream c w of None \<Rightarrow> (Inl AttributeError, w) | Some s \<Rightarrow> stream_write s x w)"
| "perform (Flush c) w =
     (case current_stream c w of None \<Rightarrow> (Inl AttributeError, w) | Some s \<Rightarrow> stream_flush s w)"

fun perform_all :: "output_call list \<Rightarrow> world \<Rightarrow> (error + unit) \<times> world" where
  "perform_all [] w = (Inr (), w)"
| "perform_all (c # cs) w =
     (case perform c w of (Inl e, w') \<Rightarrow> (Inl e, w') | (Inr u, w') \<Rightarrow> perform_all cs w')"

section \<open>JobOutput\<close>

text \<open>
  The object: its public attributes and the two private ones, \<open>__stdout\<close> and
  \<open>__stderr\<close>. An attribute that holds \<open>None\<close> is \<open>None\<close> here.
\<close>

record JobOutput =
  is_main :: bool
  enabled :: bool
  log_path :: "path option"
  job_dir :: "path option"
  checkpoint_path :: "path option"
  priv_stdout :: "stream option"
  priv_stderr :: "stream option"

text \<open>
  The paths of \<open>__init__\<close>: \<^verbatim>\<open>pathlib.Path('logs_and_output') / job_group\<close>,
  \<^verbatim>\<open>output_dir / 'log_{}.txt'.format(job_name)\<close>, \<^verbatim>\<open>output_dir / job_name\<close> and
  \<^verbatim>\<open>job_dir / 'ckpt.pth'\<close>.
\<close>

definition output_dir :: "string \<Rightarrow> path" where
  "output_dir job_group = truediv (parse_path ''logs_and_output'') job_group"

definition log_name :: "string \<Rightarrow> string" where
  "log_name job_name = ''log_'' @ job_name @ ''.txt''"

definition log_path_of :: "string \<Rightarrow> string \<Rightarrow> path" where
  "log_path_of job_group job_name = truediv (output_dir job_group) (log_name job_name)"

definition job_dir_of :: "string \<Rightarrow> string \<Rightarrow> path" where
  "job_dir_of job_group job_name = truediv (output_dir job_group) job_name"

definition checkpoint_path_of :: "string \<Rightarrow> string \<Rightarrow> path" where
  "checkpoint_path_of job_group job_name =
     truediv (job_dir_of job_group job_name) ''ckpt.pth''"

definition job_enabled :: "string \<Rightarrow> bool" where
  "job_enabled job_name \<longleftrightarrow> job_name \<notin> {'''', ''none''}"

definition starting_banner :: "string \<Rightarrow> string \<Rightarrow> string \<Rightarrow> string" where
  "starting_banner job_group job_name ts =
     ''Starting job '' @ job_group @ ''/'' @ job_name @ '' at '' @ ts @ ''\<newline>''"

definition continuing_banner :: "string \<Rightarrow> string \<Rightarrow> string \<Rightarrow> string" where
  "continuing_banner job_group job_name ts =
     ''=====\<newline>Continuing job '' @ job_group @ ''/'' @ job_name @ '' at '' @ ts @ ''\<newline>''"

text \<open>
  \<open>JobOutput.__init__(job_group, job_name, continue_job, is_main)\<close>, with the value of
  the clock as \<open>now\<close>. The result is the exception or the object, and the world after.
  The adjacent literals \<^verbatim>\<open>'=====\n' 'Continuing job {}/{} at {}\n'\<close> of the source are
  one string, so \<open>intro_lines\<close> holds one element in both branches and \<open>writelines\<close>
  appends it.
\<close>

definition JobOutput_init ::
  "string \<Rightarrow> string \<Rightarrow> bool \<Rightarrow> bool \<Rightarrow> datetime \<Rightarrow> world \<Rightarrow> (error + JobOutput) \<times> world" where
  "JobOutput_init job_group job_name continue_job main now w =
     (case mkdir_parents (fs w) (cwd w) (output_dir job_group) of
        (Inl e, f1) \<Rightarrow> (Inl e, w\<lparr>fs := f1\<rparr>)
      | (Inr u, f1) \<Rightarrow>
          (let w1 = w\<lparr>fs := f1\<rparr> in
           if job_enabled job_name then
             (let lp = log_path_of job_group job_name;
                  jd = job_dir_of job_group job_name;
                  cp = checkpoint_path_of job_group job_name
              in
              if main then
                (case (if path_exists f1 (cwd w) lp then
                         (if continue_job
                          then Inr [continuing_banner job_group job_name (strftime now)]
                          else Inl (LogAlreadyExistsError
                                 (''Log file '' @ path_str lp @ '' already exists.'')))
                       else Inr [starting_banner job_group job_name (strftime now)]) of
                   Inl e \<Rightarrow> (Inl e, w1)
                 | Inr intro_lines \<Rightarrow>
                     (case open_append f1 (cwd w) lp (concat intro_lines) of
                        Inl e \<Rightarrow> (Inl e, w1)
                      | Inr f2 \<Rightarrow>
                          (Inr \<lparr>is_main = main, enabled = True, log_path = Some lp,
                                job_dir = Some jd, checkpoint_path = Some cp,
                                priv_stdout = Some (LogHelper lp (sys_stdout w)),
                                priv_stderr = Some (LogHelper lp (sys_stderr w))\<rparr>,
                           w1\<lparr>fs := f2\<rparr>)))
              else
                (Inr \<lparr>is_main = main, enabled = True, log_path = Some lp,
                      job_dir = Some jd, checkpoint_path = Some cp,
                      priv_stdout = Some (LogSuppress (sys_stdout w)),
                      priv_stderr = Some (LogSuppress (sys_stderr w))\<rparr>,
                 w1))
           else
             (Inr \<lparr>is_main = main, enabled = False, log_path = None, job_dir = None,
                   checkpoint_path = None, priv_stdout = None, priv_stderr = None\<rparr>,
              w1)))"

text \<open>
  \<open>connect_streams\<close> assigns the two private streams to \<open>sys.stdout\<close> and \<open>sys.stderr\<close>;
  \<open>disconnect_streams\<close> assigns their \<open>.stream\<close> attributes, one after the other.
\<close>

definition connect_streams :: "JobOutput \<Rightarrow> world \<Rightarrow> (error + unit) \<times> world" where
  "connect_streams j w =
     (case priv_stdout j of
        None \<Rightarrow> (Inr (), w)
      | Some so \<Rightarrow> (Inr (), w\<lparr>sys_stdout := priv_stdout j, sys_stderr := priv_stderr j\<rparr>))"

definition disconnect_streams :: "JobOutput \<Rightarrow> world \<Rightarrow> (error + unit) \<times> world" where
  "disconnect_streams j w =
     (case priv_stdout j of
        None \<Rightarrow> (Inr (), w)
      | Some so \<Rightarrow>
          (case stream_attr so of
             Inl e \<Rightarrow> (Inl e, w)
           | Inr a \<Rightarrow>
               (let w1 = w\<lparr>sys_stdout := a\<rparr> in
                case priv_stderr j of
                  None \<Rightarrow> (Inl AttributeError, w1)
                | Some se \<Rightarrow>
                    (case stream_attr se of
                       Inl e \<Rightarrow> (Inl e, w1)
                     | Inr b \<Rightarrow> (Inr (), w1\<lparr>sys_stderr := b\<rparr>)))))"

definition checkpoint_exists :: "JobOutput \<Rightarrow> world \<Rightarrow> bool" where
  "checkpoint_exists j w =
     (case checkpoint_path j of Some cp \<Rightarrow> is_file (fs w) (cwd w) cp | None \<Rightarrow> False)"

text \<open>
  \<open>torch.load\<close> and \<open>torch.save\<close> are the library's: \<open>ser\<close> gives the bytes that
  \<open>torch.save\<close> writes for a record and \<open>de\<close> reads bytes back, \<open>None\<close> for bytes that
  are no record. Both are parameters of the operations that use them.
\<close>

definition torch_load :: "(string \<Rightarrow> 'r option) \<Rightarrow> node \<Rightarrow> loc \<Rightarrow> path \<Rightarrow> error + 'r" where
  "torch_load de f wd p =
     (case resolve f wd p of
        Inl e \<Rightarrow> Inl e
      | Inr k \<Rightarrow>
          (case k of
             Dir es \<Rightarrow> Inl IsADirectoryError
           | File c \<Rightarrow> (case de c of None \<Rightarrow> Inl DeserializationError | Some r \<Rightarrow> Inr r)))"

definition read_checkpoint ::
  "(string \<Rightarrow> 'r option) \<Rightarrow> JobOutput \<Rightarrow> world \<Rightarrow> error + 'r option" where
  "read_checkpoint de j w =
     (case checkpoint_path j of
        None \<Rightarrow> Inr None
      | Some cp \<Rightarrow>
          if checkpoint_exists j w
          then (case torch_load de (fs w) (cwd w) cp of
                  Inl e \<Rightarrow> Inl e
                | Inr r \<Rightarrow> Inr (Some r))
          else Inr None)"

text \<open>
  \<open>torch.save(data, f_ckpt)\<close> writes the bytes through the open handle, that is to the
  file at the location \<open>q\<close> that \<open>open\<close> found. The file passes through the prefixes of
  the bytes; \<open>torch_save\<close> lists the file system after each byte, so that a save can be
  stopped after any of them.
\<close>

definition torch_save :: "string \<Rightarrow> loc \<Rightarrow> node \<Rightarrow> node list" where
  "torch_save bytes q f =
     map (\<lambda>k. update_at f q (Some (File (take k bytes)))) [1..<Suc (length bytes)]"

text \<open>
  \<open>write_checkpoint\<close>, step by step. \<open>write_checkpoint_run\<close> returns the outcome and, in
  order, every step that completed with the file system it left: these are all the
  states in which the process can be stopped. The step \<open>MkJobDir\<close> is listed also when
  \<open>mkdir\<close> raised, with the file system it left then. \<open>write_checkpoint\<close> is the call
  as a whole.
\<close>

datatype step = MkJobDir | OpenNew | WriteNew | UnlinkOld | Rename

definition write_checkpoint_run ::
  "('r \<Rightarrow> string) \<Rightarrow> JobOutput \<Rightarrow> 'r \<Rightarrow> loc \<Rightarrow> node \<Rightarrow>
     (error + unit) \<times> (step \<times> node) list" where
  "write_checkpoint_run ser j data wd f0 =
     (case checkpoint_path j of
        None \<Rightarrow> (Inr (), [])
      | Some cp \<Rightarrow>
          if \<not> is_main j then (Inr (), [])
          else
            (case job_dir j of
               None \<Rightarrow> (Inl AttributeError, [])
             | Some jd \<Rightarrow>
                 (case mkdir_parents f0 wd jd of
                    (Inl e, f1) \<Rightarrow> (Inl e, [(MkJobDir, f1)])
                  | (Inr u, f1) \<Rightarrow>
                      (let new_path = truediv (path_parent cp) (path_name cp @ ''.new'');
                           s1 = [(MkJobDir, f1)]
                       in
                       case open_wb f1 wd new_path of
                         Inl e \<Rightarrow> (Inl e, s1)
                       | Inr (q, f2) \<Rightarrow>
                           (let ws = torch_save (ser data) q f2;
                                f3 = last (f2 # ws);
                                s3 = s1 @ [(OpenNew, f2)] @ map (Pair WriteNew) ws
                            in
                            if path_exists f3 wd cp then
                              (case unlink f3 wd cp of
                                 Inl e \<Rightarrow> (Inl e, s3)
                               | Inr f4 \<Rightarrow>
                                   (case rename f4 wd new_path cp of
                                      Inl e \<Rightarrow> (Inl e, s3 @ [(UnlinkOld, f4)])
                                    | Inr f5 \<Rightarrow>
                                        (Inr (), s3 @ [(UnlinkOld, f4), (Rename, f5)])))
                            else
                              (case rename f3 wd new_path cp of
                                 Inl e \<Rightarrow> (Inl e, s3)
                               | Inr f5 \<Rightarrow> (Inr (), s3 @ [(Rename, f5)])))))))"

definition write_checkpoint ::
  "('r \<Rightarrow> string) \<Rightarrow> JobOutput \<Rightarrow> 'r \<Rightarrow> world \<Rightarrow> (error + unit) \<times> world" where
  "write_checkpoint ser j data w =
     (case write_checkpoint_run ser j data (cwd w) (fs w) of
        (r, steps) \<Rightarrow> (r, w\<lparr>fs := last (fs w # map snd steps)\<rparr>))"


text \<open>
  The steps of a run that change what a path resolves to: each step is compared with the
  state before it.
\<close>

fun changing_steps :: "loc \<Rightarrow> path \<Rightarrow> node \<Rightarrow> (step \<times> node) list \<Rightarrow> step list" where
  "changing_steps wd p f [] = []"
| "changing_steps wd p f ((l, f') # rest) =
     (if resolve f' wd p = resolve f wd p then [] else [l]) @ changing_steps wd p f' rest"

section \<open>Example inputs\<close>

text \<open>
  A clock value; a process with its two console streams and nothing written, whose
  working directory \<^verbatim>\<open>/work\<close> holds the given entries; and a codec on strings that
  frames a record between two marks.
\<close>

definition noon :: datetime where
  "noon = \<lparr>year = 2024, month = 3, day = 9, hour = 12, minute = 5, second = 0\<rparr>"

definition at_work :: "(string \<times> node) list \<Rightarrow> world" where
  "at_work es =
     \<lparr>fs = Dir [(''work'', Dir es)], cwd = [''work''],
      sys_stdout = Some (Console StdOut), sys_stderr = Some (Console StdErr),
      console_out = [], console_err = []\<rparr>"

definition fresh_world :: world where
  "fresh_world = at_work []"

definition frame :: "string \<Rightarrow> string" where
  "frame r = ''<'' @ r @ ''>''"

definition unframe :: "string \<Rightarrow> string option" where
  "unframe b =
     (if 2 \<le> length b \<and> hd b = CHR ''<'' \<and> last b = CHR ''>''
      then Some (butlast (tl b)) else None)"

text \<open>
  The job \<open>exp1/run1\<close>: the world in which its log has been written by an earlier run,
  the object and the world of a first main construction at \<open>noon\<close>, and the object of a
  construction with \<open>is_main=False\<close>.
\<close>

definition logged_world :: world where
  "logged_world =
     at_work [(''logs_and_output'',
        Dir [(''exp1'', Dir [(''log_run1.txt'', File ''earlier output\<newline>'')])])]"

definition main_job :: JobOutput where
  "main_job =
     \<lparr>is_main = True, enabled = True,
      log_path = Some (Path Relative [''logs_and_output'', ''exp1'', ''log_run1.txt'']),
      job_dir = Some (Path Relative [''logs_and_output'', ''exp1'', ''run1'']),
      checkpoint_path = Some (Path Relative [''logs_and_output'', ''exp1'', ''run1'', ''ckpt.pth'']),
      priv_stdout =
        Some (LogHelper (Path Relative [''logs_and_output'', ''exp1'', ''log_run1.txt''])
                (Some (Console StdOut))),
      priv_stderr =
        Some (LogHelper (Path Relative [''logs_and_output'', ''exp1'', ''log_run1.txt''])
                (Some (Console StdErr)))\<rparr>"

definition started_world :: world where
  "started_world =
     at_work [(''logs_and_output'',
        Dir [(''exp1'', Dir [(''log_run1.txt'',
          File ''Starting job exp1/run1 at 2024-03-09 12:05:00\<newline>'')])])]"

definition worker_job :: JobOutput where
  "worker_job =
     \<lparr>is_main = False, enabled = True,
      log_path = Some (Path Relative [''logs_and_output'', ''exp1'', ''log_run1.txt'']),
      job_dir = Some (Path Relative [''logs_and_output'', ''exp1'', ''run1'']),
      checkpoint_path = Some (Path Relative [''logs_and_output'', ''exp1'', ''run1'', ''ckpt.pth'']),
      priv_stdout = Some (LogSuppress (Some (Console StdOut))),
      priv_stderr = Some (LogSuppress (Some (Console StdErr)))\<rparr>"

definition group_world :: world where
  "group_world = at_work [(''logs_and_output'', Dir [(''exp1'', Dir [])])]"

text \<open>
  Worlds of \<open>exp1/run1\<close> around a save: a checkpoint \<open>A\<close> is in place; a save of \<open>B\<close>
  has written two of its three bytes to the temporary file; the old checkpoint has been
  removed and the temporary file not yet renamed; the save of \<open>B\<close> has finished. Then
  the object of a construction with the job name \<open>''\<close>, a world in which
  \<^verbatim>\<open>logs_and_output\<close> is a regular file, and the world after an auxiliary path has been
  asked for.
\<close>

definition saved_world :: world where
  "saved_world =
     at_work [(''logs_and_output'',
        Dir [(''exp1'', Dir [(''log_run1.txt'',
               File ''Starting job exp1/run1 at 2024-03-09 12:05:00\<newline>''),
             (''run1'', Dir [(''ckpt.pth'', File ''<A>'')])])])]"



definition resaved_world :: world where
  "resaved_world =
     at_work [(''logs_and_output'',
        Dir [(''exp1'', Dir [(''log_run1.txt'',
               File ''Starting job exp1/run1 at 2024-03-09 12:05:00\<newline>''),
             (''run1'', Dir [(''ckpt.pth'', File ''<B>'')])])])]"




text \<open>
  The job \<open>exp1/a/..\<close>, whose job directory path \<^verbatim>\<open>logs_and_output/exp1/a/..\<close> goes
  through a directory \<^verbatim>\<open>a\<close> that does not exist yet: a world in which the directory
  \<^verbatim>\<open>log_a\<close> of its log file is there and the group directory holds a file
  \<^verbatim>\<open>ckpt.pth\<close>, and the world and the object of a main construction in it.
\<close>

definition detour_world :: world where
  "detour_world =
     at_work [(''logs_and_output'',
        Dir [(''exp1'', Dir [(''log_a'', Dir []), (''ckpt.pth'', File ''<A>'')])])]"

definition detour_started_world :: world where
  "detour_started_world =
     at_work [(''logs_and_output'',
        Dir [(''exp1'', Dir [(''log_a'', Dir [(''...txt'',
               File ''Starting job exp1/a/.. at 2024-03-09 12:05:00\<newline>'')]),
             (''ckpt.pth'', File ''<A>'')])])]"

definition detour_job :: JobOutput where
  "detour_job =
     \<lparr>is_main = True, enabled = True,
      log_path = Some (Path Relative [''logs_and_output'', ''exp1'', ''log_a'', ''...txt'']),
      job_dir = Some (Path Relative [''logs_and_output'', ''exp1'', ''a'', ''..'']),
      checkpoint_path =
        Some (Path Relative [''logs_and_output'', ''exp1'', ''a'', ''..'', ''ckpt.pth'']),
      priv_stdout =
        Some (LogHelper (Path Relative [''logs_and_output'', ''exp1'', ''log_a'', ''...txt''])
                (Some (Console StdOut))),
      priv_stderr =
        Some (LogHelper (Path Relative [''logs_and_output'', ''exp1'', ''log_a'', ''...txt''])
                (Some (Console StdErr)))\<rparr>"

section \<open>The file system: lemmas\<close>

lemma lookup_sibling:
  "a \<noteq> b \<Longrightarrow> lookup (update_at f (d @ a # p) v) (d @ b # q) = lookup f (d @ b # q)"
proof (induction d arbitrary: f)
  case Nil
  then show ?case
    by (cases f; cases p) (auto simp: update_conv' delete_conv' split: option.splits)
next
  case (Cons x d)
  then show ?case
    by (cases f; cases "d @ a # p") (auto simp: update_conv' split: option.splits)
qed

lemma lookup_written:
  "lookup f d = Inr (Dir es) \<Longrightarrow> lookup (update_at f (d @ [a]) (Some k)) (d @ [a]) = Inr k"
proof (induction d arbitrary: f)
  case Nil
  then show ?case by (simp add: update_conv')
next
  case (Cons x d)
  then show ?case
    by (cases f; cases "d @ [a]") (auto simp: update_conv' split: option.splits)
qed

lemma lookup_removed:
  "lookup f d = Inr (Dir es) \<Longrightarrow>
   lookup (update_at f (d @ [a]) None) (d @ [a]) = Inl FileNotFoundError"
proof (induction d arbitrary: f)
  case Nil
  then show ?case by (simp add: delete_conv')
next
  case (Cons x d)
  then show ?case
    by (cases f; cases "d @ [a]") (auto simp: update_conv' split: option.splits)
qed

lemma lookup_parent_kept:
  "lookup f d = Inr (Dir es) \<Longrightarrow> \<exists>es'. lookup (update_at f (d @ [a]) v) d = Inr (Dir es')"
proof (induction d arbitrary: f)
  case Nil
  then show ?case by simp
next
  case (Cons x d)
  then show ?case
    by (cases f; cases "d @ [a]") (auto simp: update_conv' split: option.splits)
qed

lemma lookup_child_parent:
  "lookup f (d @ x # r) = Inr k \<Longrightarrow> \<exists>es. lookup f d = Inr (Dir es)"
proof (induction d arbitrary: f)
  case Nil
  then show ?case by (cases f) auto
next
  case (Cons y d)
  then show ?case by (cases f) (auto split: option.splits)
qed







text \<open>
  \<open>dirs_kept f f'\<close>: every directory of \<open>f\<close> is a directory of \<open>f'\<close>. Writing to a file,
  creating one, removing one and creating a directory all keep the directories, and so
  keep every walk that succeeded.
\<close>

lemma dirs_kept_refl: "dirs_kept f f"
  by (simp add: dirs_kept_def)

lemma dirs_kept_trans: "dirs_kept f g \<Longrightarrow> dirs_kept g h \<Longrightarrow> dirs_kept f h"
  unfolding dirs_kept_def by blast

lemma update_keeps_dir:
  assumes "lookup f r = Inr (Dir es)" and "\<And>es0. lookup f q \<noteq> Inr (Dir es0)"
  shows "\<exists>es'. lookup (update_at f q v) r = Inr (Dir es')"
  using assms
proof (induction f q v arbitrary: r es rule: update_at.induct)
  case (1 n v)
  then show ?case by (cases n; cases r) auto
next
  case (2 c x xs v)
  then show ?case by simp
next
  case (3 es0 x v)
  show ?case
  proof (cases r)
    case Nil
    then show ?thesis by simp
  next
    case (Cons y ys)
    show ?thesis
    proof (cases "y = x")
      case False
      with Cons "3.prems"(1) show ?thesis
        by (cases v) (auto simp: update_conv' delete_conv' split: option.splits)
    next
      case True
      from True Cons "3.prems"(1) obtain k
        where k: "map_of es0 x = Some k" and l: "lookup k ys = Inr (Dir es)"
        by (auto split: option.splits)
      from k "3.prems"(2) have "\<And>es1. k \<noteq> Dir es1" by simp
      then obtain c where "k = File c" by (cases k) auto
      with l have False by (cases ys) auto
      then show ?thesis ..
    qed
  qed
next
  case (4 es0 x y ys v)
  show ?case
  proof (cases r)
    case Nil
    then show ?thesis by (simp split: option.splits)
  next
    case (Cons z zs)
    show ?thesis
    proof (cases "map_of es0 x")
      case None
      with "4.prems"(1) show ?thesis by simp
    next
      case (Some k)
      show ?thesis
      proof (cases "z = x")
        case False
        with Cons Some "4.prems"(1) show ?thesis by (auto simp: update_conv' split: option.splits)
      next
        case True
        from True Cons Some "4.prems"(1) have a: "lookup k zs = Inr (Dir es)" by simp
        from Some "4.prems"(2) have b: "\<And>es0. lookup k (y # ys) \<noteq> Inr (Dir es0)" by simp
        from "4.IH"[OF Some a b] True Cons Some show ?thesis by (simp add: update_conv')
      qed
    qed
  qed
qed

lemma dirs_kept_update:
  assumes "\<And>es0. lookup f q \<noteq> Inr (Dir es0)"
  shows "dirs_kept f (update_at f q v)"
  unfolding dirs_kept_def using update_keeps_dir[OF _ assms] by blast


lemma walk_end_dir: "walk f q cs = Inr q' \<Longrightarrow> \<exists>es. lookup f q' = Inr (Dir es)"
  by (induction cs arbitrary: q) (auto split: sum.splits node.splits)

lemma walk_append:
  "walk f q (cs @ ds) = (case walk f q cs of Inl e \<Rightarrow> Inl e | Inr q' \<Rightarrow> walk f q' ds)"
proof (induction cs arbitrary: q)
  case Nil
  show ?case by (cases ds) (auto split: sum.splits node.splits)
next
  case (Cons c cs)
  then show ?case by (auto split: sum.splits node.splits)
qed

lemma walk_kept:
  assumes "dirs_kept f f'" and "walk f q cs = Inr q'"
  shows "walk f' q cs = Inr q'"
  using assms(2)
proof (induction cs arbitrary: q)
  case Nil
  then obtain es where "lookup f q = Inr (Dir es)" and "q' = q"
    by (auto split: sum.splits node.splits)
  with assms(1) show ?case unfolding dirs_kept_def by fastforce
next
  case (Cons c cs)
  then obtain es where d: "lookup f q = Inr (Dir es)" and w: "walk f (step q c) cs = Inr q'"
    by (auto split: sum.splits node.splits)
  from d assms(1) obtain es' where "lookup f' q = Inr (Dir es')"
    unfolding dirs_kept_def by blast
  with Cons.IH[OF w] show ?case by simp
qed


section \<open>Paths: lemmas\<close>


lemma has_nul_prefix: "\<not> has_nul (Path a (cs @ ds)) \<Longrightarrow> \<not> has_nul (Path a cs)"
  by simp

lemma walk_locate:
  assumes "\<not> has_nul (Path a cs)" and "walk f (start_of wd a) cs = Inr q"
  shows "locate f wd (Path a cs) = Inr q"
proof (cases cs rule: rev_cases)
  case Nil
  with assms show ?thesis by (auto split: sum.splits node.splits)
next
  case (snoc ds c)
  from assms(2) snoc obtain d where d: "walk f (start_of wd a) ds = Inr d"
    and w: "walk f d [c] = Inr q"
    by (auto simp: walk_append split: sum.splits)
  from w have "q = step d c" by (auto split: sum.splits node.splits)
  with assms(1) snoc d show ?thesis by simp
qed

lemma walk_resolve:
  assumes "\<not> has_nul (Path a cs)" and "walk f (start_of wd a) cs = Inr q"
  shows "\<exists>es. resolve f wd (Path a cs) = Inr (Dir es)"
  using walk_locate[OF assms] walk_end_dir[OF assms(2)] by (simp add: resolve_def)

lemma locate_parent_walk:
  assumes "locate f wd (Path a (cs @ c # rest)) = Inr q"
  shows "\<not> has_nul (Path a cs) \<and> (\<exists>d. walk f (start_of wd a) cs = Inr d)"
proof -
  from assms have n: "\<not> has_nul (Path a (cs @ c # rest))"
    by (auto split: if_splits)
  have "butlast (cs @ c # rest) = cs @ butlast (c # rest)"
    by (simp add: butlast_append)
  with assms n obtain d' where "walk f (start_of wd a) (cs @ butlast (c # rest)) = Inr d'"
    by (auto split: if_splits sum.splits)
  then obtain d where "walk f (start_of wd a) cs = Inr d"
    by (auto simp: walk_append split: sum.splits)
  with n show ?thesis by auto
qed

lemma child_resolves_parent_dir:
  assumes "resolve f wd (Path a (cs @ c # rest)) = Inr k"
  shows "\<exists>es. resolve f wd (Path a cs) = Inr (Dir es)"
proof -
  from assms obtain q where "locate f wd (Path a (cs @ c # rest)) = Inr q"
    by (auto simp: resolve_def split: sum.splits)
  from locate_parent_walk[OF this] obtain d
    where "\<not> has_nul (Path a cs)" and "walk f (start_of wd a) cs = Inr d" by blast
  then show ?thesis by (rule walk_resolve)
qed

lemma mkdir_parents_existing:
  assumes "resolve f wd p = Inr (Dir es)"
  shows "mkdir_parents f wd p = (Inr (), f)"
proof -
  obtain a cs where p: "p = Path a cs" by (cases p)
  from assms obtain q where q: "locate f wd p = Inr q" and l: "lookup f q = Inr (Dir es)"
    by (auto simp: resolve_def split: sum.splits)
  then have "os_mkdir f wd p = Inl FileExistsError"
    by (simp add: os_mkdir_def mkdir_at_def)
  moreover have "is_dir f wd p" using assms by (simp add: is_dir_def)
  ultimately show ?thesis
    unfolding p by (subst mkdir_parents.simps) (simp add: is_os_error_def)
qed

lemma locate_kept:
  assumes "dirs_kept f f'" and "locate f wd p = Inr q"
  shows "locate f' wd p = Inr q"
proof -
  obtain a cs where p: "p = Path a cs" by (cases p)
  from assms(2) p obtain d where n: "\<not> has_nul (Path a cs)"
    and w: "walk f (start_of wd a) (butlast cs) = Inr d"
    and q: "q = (if cs = [] then d else step d (last cs))"
    by (auto split: if_splits sum.splits)
  from walk_kept[OF assms(1) w] n q show ?thesis by (simp add: p)
qed



















section \<open>Construction\<close>

lemma split_slash_nonempty: "split_slash s \<noteq> []"
  by (induction s) (auto split: list.splits)

lemma split_slash_head:
  "c \<noteq> CHR ''/'' \<Longrightarrow> \<exists>x xs. split_slash (c # s) = (c # x) # xs"
  using split_slash_nonempty[of s] by (cases "split_slash s") auto




lemma log_name_relative: "anchor_of (log_name n) = Relative"
  by (simp add: anchor_of_def log_name_def)

lemma log_name_parts: "\<exists>c rest. parts_of (log_name n) = c # rest"
proof -
  obtain x xs where "split_slash (log_name n) = (CHR ''l'' # x) # xs"
    using split_slash_head[of "CHR ''l''" "''og_'' @ n @ ''.txt''"] by (auto simp: log_name_def)
  then show ?thesis by (simp add: parts_of_def)
qed

lemma log_path_shape:
  assumes "output_dir g = Path a cs"
  shows "\<exists>c rest. log_path_of g n = Path a (cs @ c # rest)"
  using log_name_parts[of n] assms
  by (auto simp: log_path_of_def log_name_relative)




lemma checkpoint_path_shape:
  assumes "job_dir_of g n = Path a cs"
  shows "checkpoint_path_of g n = Path a (cs @ [''ckpt.pth''])"
  using assms by (simp add: checkpoint_path_of_def anchor_of_def parts_of_def)

lemma new_path_shape:
  "truediv (path_parent (Path a (cs @ [''ckpt.pth''])))
     (path_name (Path a (cs @ [''ckpt.pth''])) @ ''.new'') = Path a (cs @ [''ckpt.pth.new''])"
  by (simp add: anchor_of_def parts_of_def)

lemma init_fields:
  assumes "JobOutput_init g n c m now w = (Inr j, w')" and "job_enabled n"
  shows "j = \<lparr>is_main = m, enabled = True, log_path = Some (log_path_of g n),
              job_dir = Some (job_dir_of g n),
              checkpoint_path = Some (checkpoint_path_of g n),
              priv_stdout = Some ((if m then LogHelper (log_path_of g n) else LogSuppress)
                                    (sys_stdout w)),
              priv_stderr = Some ((if m then LogHelper (log_path_of g n) else LogSuppress)
                                    (sys_stderr w))\<rparr>"
  using assms
  by (auto simp: JobOutput_init_def Let_def split: prod.splits sum.splits if_splits)

lemma existing_log_keeps_dir:
  assumes "path_exists f wd (log_path_of g n)"
  shows "mkdir_parents f wd (output_dir g) = (Inr (), f)"
proof -
  obtain a cs where od: "output_dir g = Path a cs" by (cases "output_dir g")
  from log_path_shape[OF od, of n] obtain c rest
    where lp: "log_path_of g n = Path a (cs @ c # rest)" by blast
  from assms obtain k where "resolve f wd (Path a (cs @ c # rest)) = Inr k"
    by (auto simp: path_exists_def lp split: sum.splits)
  from child_resolves_parent_dir[OF this] obtain es
    where "resolve f wd (output_dir g) = Inr (Dir es)" unfolding od ..
  then show ?thesis by (rule mkdir_parents_existing)
qed





lemma run1_enabled: "job_enabled ''run1''"
  by (simp add: job_enabled_def)

lemma init_main_job:
  "JobOutput_init ''exp1'' ''run1'' False True noon fresh_world = (Inr main_job, started_world)"
  by code_simp

lemma init_worker_job:
  "JobOutput_init ''exp1'' ''run1'' False False noon fresh_world = (Inr worker_job, group_world)"
  by code_simp

lemma init_detour_job:
  "JobOutput_init ''exp1'' ''a/..'' False True noon detour_world =
     (Inr detour_job, detour_started_world)"
  by code_simp

text \<open>
  Claim C2. For an enabled job name and \<open>is_main=True\<close>, when the log path exists and
  \<open>continue_job\<close> is false, \<open>__init__\<close> raises \<open>LogAlreadyExistsError\<close> and the world
  after is the world before: the log file keeps its content and nothing else has been
  touched either, since the group directory of an existing log is already there.
\<close>

theorem conflict_fails_untouched:
  assumes "job_enabled job_name"
    and "path_exists (fs w) (cwd w) (log_path_of job_group job_name)"
  shows "JobOutput_init job_group job_name False True now w =
           (Inl (LogAlreadyExistsError
              (''Log file '' @ path_str (log_path_of job_group job_name) @ '' already exists.'')),
            w)"
  using assms existing_log_keeps_dir[OF assms(2)]
  by (simp add: JobOutput_init_def)

theorem conflict_fails_untouched_witness:
  "job_enabled ''run1'' \<and>
   path_exists (fs logged_world) (cwd logged_world) (log_path_of ''exp1'' ''run1'') \<and>
   JobOutput_init ''exp1'' ''run1'' False True noon logged_world =
     (Inl (LogAlreadyExistsError
        ''Log file logs_and_output/exp1/log_run1.txt already exists.''), logged_world)"
proof -
  have b: "path_exists (fs logged_world) (cwd logged_world) (log_path_of ''exp1'' ''run1'')"
    by code_simp
  have s: "path_str (log_path_of ''exp1'' ''run1'') = ''logs_and_output/exp1/log_run1.txt''"
    by code_simp
  from conflict_fails_untouched[OF run1_enabled b, of noon] run1_enabled b
  show ?thesis by (simp add: s)
qed






section \<open>Streams\<close>

text \<open>
  Claim C10. For an enabled job name, \<open>disconnect_streams\<close> on the constructed object
  sets \<open>sys.stdout\<close> and \<open>sys.stderr\<close> to the values they had when \<open>__init__\<close> ran, in
  whatever world it is called, so also right after \<open>connect_streams\<close>; it raises nothing
  and changes nothing else.
\<close>

theorem disconnect_restores_construction_streams:
  assumes "JobOutput_init job_group job_name continue_job main now w0 = (Inr j, w1)"
    and "job_enabled job_name"
  shows "disconnect_streams j w =
           (Inr (), w\<lparr>sys_stdout := sys_stdout w0, sys_stderr := sys_stderr w0\<rparr>) \<and>
         disconnect_streams j (snd (connect_streams j w)) =
           (Inr (), w\<lparr>sys_stdout := sys_stdout w0, sys_stderr := sys_stderr w0\<rparr>)"
  by (simp add: init_fields[OF assms] disconnect_streams_def connect_streams_def)

theorem disconnect_restores_construction_streams_witness:
  "JobOutput_init ''exp1'' ''run1'' False True noon fresh_world = (Inr main_job, started_world) \<and>
   job_enabled ''run1'' \<and>
   disconnect_streams main_job (started_world\<lparr>sys_stdout := None, sys_stderr := None\<rparr>) =
     (Inr (), started_world) \<and>
   disconnect_streams main_job (snd (connect_streams main_job started_world)) =
     (Inr (), started_world)"
  using disconnect_restores_construction_streams[OF init_main_job run1_enabled,
      of "started_world\<lparr>sys_stdout := None, sys_stderr := None\<rparr>"]
    disconnect_restores_construction_streams[OF init_main_job run1_enabled, of started_world]
    init_main_job run1_enabled
  by (simp add: started_world_def fresh_world_def at_work_def)

lemma suppressed_calls:
  assumes "sys_stdout w = Some (LogSuppress a)" and "sys_stderr w = Some (LogSuppress b)"
  shows "perform_all calls w = (Inr (), w)"
proof (induction calls)
  case Nil
  show ?case by simp
next
  case (Cons c calls)
  have "perform c w = (Inr (), w)"
    using assms by (cases c) (auto simp: current_stream_def split: console.splits)
  with Cons show ?case by simp
qed

text \<open>
  Claim C6. For an enabled job name and \<open>is_main=False\<close>, \<open>write_checkpoint\<close> on the
  constructed object returns with the world as it was (no checkpoint file, no job
  directory), and after \<open>connect_streams\<close> any sequence of writes and flushes on
  \<open>sys.stdout\<close> and \<open>sys.stderr\<close> returns with the world as it was: the file system, so the
  log file, and both consoles are as before \<open>connect_streams\<close>.
\<close>

theorem non_main_suppressed:
  assumes "JobOutput_init job_group job_name continue_job False now w0 = (Inr j, w1)"
    and "job_enabled job_name"
  shows "write_checkpoint ser j data w = (Inr (), w) \<and>
         perform_all calls (snd (connect_streams j w)) = (Inr (), snd (connect_streams j w)) \<and>
         fs (snd (connect_streams j w)) = fs w \<and>
         console_out (snd (connect_streams j w)) = console_out w \<and>
         console_err (snd (connect_streams j w)) = console_err w"
proof -
  note j = init_fields[OF assms]
  have "write_checkpoint ser j data w = (Inr (), w)"
    by (simp add: j write_checkpoint_def write_checkpoint_run_def)
  moreover have "perform_all calls (snd (connect_streams j w)) =
                   (Inr (), snd (connect_streams j w))"
    by (rule suppressed_calls) (simp_all add: j connect_streams_def)
  ultimately show ?thesis by (simp add: j connect_streams_def)
qed

theorem non_main_suppressed_witness:
  "JobOutput_init ''exp1'' ''run1'' False False noon fresh_world = (Inr worker_job, group_world) \<and>
   job_enabled ''run1'' \<and>
   write_checkpoint frame worker_job ''state'' group_world = (Inr (), group_world) \<and>
   perform_all [Write StdOut ''epoch 1'', Write StdErr ''warning'', Flush StdOut]
     (snd (connect_streams worker_job group_world)) =
     (Inr (), snd (connect_streams worker_job group_world)) \<and>
   fs (snd (connect_streams worker_job group_world)) = fs group_world \<and>
   console_out (snd (connect_streams worker_job group_world)) = [] \<and>
   console_err (snd (connect_streams worker_job group_world)) = []"
  using non_main_suppressed[OF init_worker_job run1_enabled, of frame "''state''" group_world
      "[Write StdOut ''epoch 1'', Write StdErr ''warning'', Flush StdOut]"]
    init_worker_job run1_enabled
  by (simp add: group_world_def at_work_def)

section \<open>Saving a checkpoint\<close>

lemma write_at_sibling:
  assumes "write_at f (d @ [a]) g = Inr f'" and "a \<noteq> b"
  shows "lookup f' (d @ b # q) = lookup f (d @ b # q)"
  using assms lookup_sibling[of a b f d "[]" _ q]
  by (auto simp: write_at_def split: sum.splits node.splits)

lemma write_at_kept:
  assumes "write_at f q g = Inr f'"
  shows "dirs_kept f f'"
proof -
  from assms obtain c where f': "f' = update_at f q (Some (File c))"
    and nd: "\<And>es. lookup f q \<noteq> Inr (Dir es)"
    by (auto simp: write_at_def split: sum.splits node.splits)
  show ?thesis unfolding f' by (rule dirs_kept_update) (rule nd)
qed

lemma write_at_truncated:
  assumes "write_at f (d @ [a]) (\<lambda>c. []) = Inr f'"
  shows "lookup f' (d @ [a]) = Inr (File []) \<and> (\<exists>es. lookup f' d = Inr (Dir es))"
proof -
  have "\<exists>es. lookup f d = Inr (Dir es)"
    using assms lookup_child_parent[of f d a "[]"]
    by (auto simp: write_at_def split: sum.splits node.splits)
  then obtain es where par: "lookup f d = Inr (Dir es)" ..
  have f': "f' = update_at f (d @ [a]) (Some (File []))"
    using assms by (auto simp: write_at_def split: sum.splits node.splits)
  show ?thesis
    using lookup_written[OF par, of a "File []"] lookup_parent_kept[OF par, of a "Some (File [])"]
    by (simp add: f')
qed

lemma torch_save_sibling:
  assumes "a \<noteq> b" and "h \<in> set (f # torch_save bytes (d @ [a]) f)"
  shows "lookup h (d @ b # q) = lookup f (d @ b # q)"
  using assms lookup_sibling[of a b f d "[]" _ q]
  by (auto simp: torch_save_def)

lemma torch_save_kept:
  assumes "lookup f q = Inr (File c)" and "h \<in> set (f # torch_save bytes q f)"
  shows "dirs_kept f h"
proof -
  have "dirs_kept f (update_at f q v)" for v
    by (rule dirs_kept_update) (simp add: assms(1))
  with assms(2) show ?thesis by (auto simp: torch_save_def dirs_kept_refl)
qed

lemma torch_save_last:
  assumes "lookup f d = Inr (Dir es)" and "lookup f (d @ [a]) = Inr (File [])"
  shows "lookup (last (f # torch_save bytes (d @ [a]) f)) (d @ [a]) = Inr (File bytes) \<and>
         (\<exists>es'. lookup (last (f # torch_save bytes (d @ [a]) f)) d = Inr (Dir es'))"
proof (cases "bytes = []")
  case True
  with assms show ?thesis by (simp add: torch_save_def)
next
  case False
  then have len: "Suc 0 \<le> length bytes" by (cases bytes) simp_all
  then have "torch_save bytes (d @ [a]) f \<noteq> []" by (simp add: torch_save_def)
  moreover have "last (torch_save bytes (d @ [a]) f) =
                   update_at f (d @ [a]) (Some (File bytes))"
    using len by (simp add: torch_save_def)
  ultimately show ?thesis
    using lookup_written[OF assms(1), of a "File bytes"]
      lookup_parent_kept[OF assms(1), of a "Some (File bytes)"]
    by simp
qed

lemma unlink_at_result:
  assumes "unlink_at f (d @ [b]) = Inr f'"
  shows "lookup f' (d @ [b]) = Inl FileNotFoundError"
    and "a \<noteq> b \<Longrightarrow> lookup f' (d @ [a]) = lookup f (d @ [a])"
    and "dirs_kept f f'"
proof -
  have f': "f' = update_at f (d @ [b]) None"
    using assms by (auto simp: unlink_at_def split: sum.splits node.splits)
  have nd: "\<And>es. lookup f (d @ [b]) \<noteq> Inr (Dir es)"
    using assms by (auto simp: unlink_at_def split: sum.splits node.splits)
  have "\<exists>es. lookup f d = Inr (Dir es)"
    using assms lookup_child_parent[of f d b "[]"]
    by (auto simp: unlink_at_def split: sum.splits node.splits)
  then obtain es where par: "lookup f d = Inr (Dir es)" ..
  show "lookup f' (d @ [b]) = Inl FileNotFoundError"
    using lookup_removed[OF par, of b] by (simp add: f')
  show "a \<noteq> b \<Longrightarrow> lookup f' (d @ [a]) = lookup f (d @ [a])"
    using lookup_sibling[of b a f d "[]" None "[]"] by (simp add: f')
  show "dirs_kept f f'" unfolding f' by (rule dirs_kept_update) (rule nd)
qed

lemma rename_at_file:
  assumes "lookup f (d @ [a]) = Inr (File c)" and "rename_at f (d @ [a]) (d @ [b]) = Inr f'"
    and "a \<noteq> b"
  shows "lookup f' (d @ [b]) = Inr (File c)" and "dirs_kept f f'"
proof -
  let ?g = "update_at f (d @ [a]) None"
  from lookup_child_parent[of f d a "[]"] assms(1)
  obtain es where par: "lookup f d = Inr (Dir es)" by auto
  from lookup_parent_kept[OF par, of a None]
  obtain es' where par': "lookup ?g d = Inr (Dir es')" ..
  have f': "f' = update_at ?g (d @ [b]) (Some (File c))"
    using assms by (auto simp: rename_at_def Let_def split: sum.splits node.splits)
  have nd: "\<And>es. lookup f (d @ [b]) \<noteq> Inr (Dir es)"
    using assms by (auto simp: rename_at_def Let_def split: sum.splits node.splits)
  have sib: "lookup ?g (d @ [b]) = lookup f (d @ [b])"
    using lookup_sibling[of a b f d "[]" None "[]"] assms(3) by simp
  from lookup_written[OF par', of b "File c"] show "lookup f' (d @ [b]) = Inr (File c)"
    by (simp add: f')
  have "dirs_kept f ?g" by (rule dirs_kept_update) (simp add: assms(1))
  moreover have "dirs_kept ?g f'" unfolding f' by (rule dirs_kept_update) (simp add: sib nd)
  ultimately show "dirs_kept f f'" by (rule dirs_kept_trans)
qed


lemma changing_steps_same:
  "(\<And>h. h \<in> set hs \<Longrightarrow> resolve h wd p = resolve f wd p) \<Longrightarrow>
   changing_steps wd p f (map (Pair l) hs) = []"
  by (induction hs arbitrary: f) auto


text \<open>
  What a successful \<open>open('wb')\<close> of the temporary file tells: the job directory is a
  directory at some location \<open>D\<close>, the temporary file and the checkpoint are entries of
  \<open>D\<close>, and both paths keep naming these entries in every later state that keeps the
  directories.
\<close>

lemma open_wb_facts:
  assumes "open_wb f1 wd (Path a (cs @ [''ckpt.pth.new''])) = Inr (q, f2)"
  shows "\<exists>D es. q = D @ [''ckpt.pth.new''] \<and>
           locate f1 wd (Path a (cs @ [''ckpt.pth.new''])) = Inr (D @ [''ckpt.pth.new'']) \<and>
           locate f1 wd (Path a (cs @ [''ckpt.pth''])) = Inr (D @ [''ckpt.pth'']) \<and>
           lookup f2 (D @ [''ckpt.pth.new'']) = Inr (File []) \<and>
           lookup f2 D = Inr (Dir es) \<and> dirs_kept f1 f2 \<and>
           lookup f2 (D @ [''ckpt.pth'']) = lookup f1 (D @ [''ckpt.pth''])"
proof -
  from assms have loc: "locate f1 wd (Path a (cs @ [''ckpt.pth.new''])) = Inr q"
    and wr: "write_at f1 q (\<lambda>c. []) = Inr f2"
    by (auto simp: open_wb_def simp del: locate.simps split: sum.splits)
  from loc obtain D where nn: "\<not> list_ex (\<lambda>c. CHR 0x00 \<in> set c) cs"
    and w: "walk f1 (start_of wd a) cs = Inr D" and q: "q = D @ [''ckpt.pth.new'']"
    by (auto simp: step_def split: if_splits sum.splits)
  from nn w have lc: "locate f1 wd (Path a (cs @ [''ckpt.pth''])) = Inr (D @ [''ckpt.pth''])"
    by (simp add: step_def)
  from write_at_truncated[of f1 D "''ckpt.pth.new''" f2] wr q obtain es
    where "lookup f2 (D @ [''ckpt.pth.new'']) = Inr (File [])" and "lookup f2 D = Inr (Dir es)"
    by auto
  moreover have "dirs_kept f1 f2" by (rule write_at_kept[OF wr])
  moreover have "lookup f2 (D @ [''ckpt.pth'']) = lookup f1 (D @ [''ckpt.pth''])"
    using write_at_sibling[of f1 D "''ckpt.pth.new''" _ f2 "''ckpt.pth''" "[]"] wr q by simp
  ultimately show ?thesis using loc lc q by blast
qed


text \<open>
  The shape of a save once the job directory has been made: first the steps on the
  temporary file, none of which changes what the checkpoint path resolves to, then at most
  the removal of the old checkpoint and the rename.
\<close>

lemma run_analysis:
  assumes cp: "checkpoint_path j = Some (Path a (cs @ [''ckpt.pth'']))"
    and jd: "job_dir j = Some (Path a cs)"
    and main: "is_main j"
    and mk: "mkdir_parents f0 wd (Path a cs) = (Inr (), f1)"
  shows "\<exists>rest1 rest2.
           snd (write_checkpoint_run ser j data wd f0) = (MkJobDir, f1) # rest1 @ rest2 \<and>
           (\<forall>(l, h) \<in> set rest1. (l = OpenNew \<or> l = WriteNew) \<and>
              resolve h wd (Path a (cs @ [''ckpt.pth''])) =
              resolve f1 wd (Path a (cs @ [''ckpt.pth'']))) \<and>
           (rest2 = [] \<and> fst (write_checkpoint_run ser j data wd f0) \<noteq> Inr () \<or>
            (\<exists>f4. rest2 = [(UnlinkOld, f4)] \<and>
               fst (write_checkpoint_run ser j data wd f0) \<noteq> Inr () \<and>
               path_exists f1 wd (Path a (cs @ [''ckpt.pth''])) \<and>
               resolve f4 wd (Path a (cs @ [''ckpt.pth''])) = Inl FileNotFoundError) \<or>
            (\<exists>f4 f5. rest2 = [(UnlinkOld, f4), (Rename, f5)] \<and>
               fst (write_checkpoint_run ser j data wd f0) = Inr () \<and>
               path_exists f1 wd (Path a (cs @ [''ckpt.pth''])) \<and>
               resolve f4 wd (Path a (cs @ [''ckpt.pth''])) = Inl FileNotFoundError \<and>
               resolve f5 wd (Path a (cs @ [''ckpt.pth''])) = Inr (File (ser data))) \<or>
            (\<exists>f5. rest2 = [(Rename, f5)] \<and>
               fst (write_checkpoint_run ser j data wd f0) = Inr () \<and>
               \<not> path_exists f1 wd (Path a (cs @ [''ckpt.pth''])) \<and>
               resolve f5 wd (Path a (cs @ [''ckpt.pth''])) = Inr (File (ser data))))"
    (is "\<exists>rest1 rest2. ?P rest1 rest2")
proof -
  let ?cp = "Path a (cs @ [''ckpt.pth''])" and ?np = "Path a (cs @ [''ckpt.pth.new''])"
  let ?run = "write_checkpoint_run ser j data wd f0"
  note unf = write_checkpoint_run_def cp jd main mk new_path_shape Let_def
  show ?thesis
  proof (cases "open_wb f1 wd ?np")
    case (Inl e)
    then have "?P [] []"
      by (simp add: unf del: truediv.simps path_parent.simps path_name.simps)
    then show ?thesis by blast
  next
    case (Inr qf)
    obtain q f2 where qf: "qf = (q, f2)" by (cases qf)
    note o = Inr[unfolded qf]
    from open_wb_facts[OF o] obtain D es
      where q: "q = D @ [''ckpt.pth.new'']"
        and ln: "locate f1 wd ?np = Inr (D @ [''ckpt.pth.new''])"
        and lc: "locate f1 wd ?cp = Inr (D @ [''ckpt.pth''])"
        and n2: "lookup f2 (D @ [''ckpt.pth.new'']) = Inr (File [])"
        and d2: "lookup f2 D = Inr (Dir es)"
        and k12: "dirs_kept f1 f2"
        and c2: "lookup f2 (D @ [''ckpt.pth'']) = lookup f1 (D @ [''ckpt.pth''])"
      by blast
    define ws where "ws = torch_save (ser data) q f2"
    define f3 where "f3 = last (f2 # ws)"
    have rc: "resolve g wd ?cp = lookup g (D @ [''ckpt.pth''])" if "dirs_kept f1 g" for g
      using locate_kept[OF that lc] by (simp add: resolve_def)
    have c1: "resolve f1 wd ?cp = lookup f1 (D @ [''ckpt.pth''])"
      by (rule rc) (rule dirs_kept_refl)
    have kw: "dirs_kept f1 h \<and> lookup h (D @ [''ckpt.pth'']) = lookup f1 (D @ [''ckpt.pth''])"
      if "h \<in> set (f2 # ws)" for h
    proof
      have "dirs_kept f2 h"
        using torch_save_kept[OF n2, of h "ser data"] that by (simp add: ws_def q)
      with k12 show "dirs_kept f1 h" by (rule dirs_kept_trans)
      show "lookup h (D @ [''ckpt.pth'']) = lookup f1 (D @ [''ckpt.pth''])"
        using torch_save_sibling[of "''ckpt.pth.new''" "''ckpt.pth''" h f2 "ser data" D "[]"]
          that c2 by (simp add: ws_def q)
    qed
    have f3_mem: "f3 \<in> set (f2 # ws)" unfolding f3_def by (rule last_in_set) simp
    note k3 = kw[OF f3_mem, THEN conjunct1]
    have c3: "lookup f3 (D @ [''ckpt.pth'']) = lookup f1 (D @ [''ckpt.pth''])"
      using kw[OF f3_mem] by simp
    have n3: "lookup f3 (D @ [''ckpt.pth.new'']) = Inr (File (ser data))"
      using torch_save_last[OF d2 n2, of "ser data"] by (simp add: f3_def ws_def q)
    have ex3: "path_exists f3 wd ?cp = path_exists f1 wd ?cp"
      by (simp add: path_exists_def rc[OF k3] c1 c3)
    let ?rest1 = "(OpenNew, f2) # map (Pair WriteNew) ws"
    have early: "\<forall>(l, h) \<in> set ?rest1. (l = OpenNew \<or> l = WriteNew) \<and>
                   resolve h wd ?cp = resolve f1 wd ?cp"
      using kw rc c1 by auto
    have ul: "unlink g wd ?cp = unlink_at g (D @ [''ckpt.pth''])" if "dirs_kept f1 g" for g
      using locate_kept[OF that lc] by (simp add: unlink_def)
    have rn: "rename g wd ?np ?cp = rename_at g (D @ [''ckpt.pth.new'']) (D @ [''ckpt.pth''])"
      if "dirs_kept f1 g" for g
      using locate_kept[OF that lc] locate_kept[OF that ln] by (simp add: rename_def)
    have renamed: "resolve f5 wd ?cp = Inr (File (ser data))"
      if "dirs_kept f1 g" and "lookup g (D @ [''ckpt.pth.new'']) = Inr (File (ser data))"
        and "rename g wd ?np ?cp = Inr f5" for g f5
    proof -
      from that(3) have r: "rename_at g (D @ [''ckpt.pth.new'']) (D @ [''ckpt.pth'']) = Inr f5"
        by (simp add: rn[OF that(1)])
      have "dirs_kept g f5" by (rule rename_at_file(2)[OF that(2) r]) simp
      with that(1) have "dirs_kept f1 f5" by (rule dirs_kept_trans)
      from rc[OF this] rename_at_file(1)[OF that(2) r] show ?thesis by simp
    qed
    show ?thesis
    proof (cases "path_exists f3 wd ?cp")
      case True
      show ?thesis
      proof (cases "unlink f3 wd ?cp")
        case (Inl e)
        with o True early have "?P ?rest1 []"
          by (simp add: unf ws_def f3_def
              del: truediv.simps path_parent.simps path_name.simps)
        then show ?thesis by blast
      next
        case f4: (Inr f4)
        from f4 have u: "unlink_at f3 (D @ [''ckpt.pth'']) = Inr f4" by (simp add: ul[OF k3])
        have k4: "dirs_kept f1 f4"
          using k3 unlink_at_result(3)[OF u] by (rule dirs_kept_trans)
        have c4: "resolve f4 wd ?cp = Inl FileNotFoundError"
          using unlink_at_result(1)[OF u] by (simp add: rc[OF k4])
        have n4: "lookup f4 (D @ [''ckpt.pth.new'']) = Inr (File (ser data))"
          using unlink_at_result(2)[OF u, of "''ckpt.pth.new''"] n3 by simp
        show ?thesis
        proof (cases "rename f4 wd ?np ?cp")
          case (Inl e)
          with o True f4 early c4 ex3 have "?P ?rest1 [(UnlinkOld, f4)]"
            by (simp add: unf ws_def f3_def
              del: truediv.simps path_parent.simps path_name.simps)
          then show ?thesis by blast
        next
          case f5: (Inr f5)
          note renamed[OF k4 n4 f5]
          with o True f4 f5 early c4 ex3 have "?P ?rest1 [(UnlinkOld, f4), (Rename, f5)]"
            by (simp add: unf ws_def f3_def
              del: truediv.simps path_parent.simps path_name.simps)
          then show ?thesis by blast
        qed
      qed
    next
      case False
      show ?thesis
      proof (cases "rename f3 wd ?np ?cp")
        case (Inl e)
        with o False early have "?P ?rest1 []"
          by (simp add: unf ws_def f3_def
              del: truediv.simps path_parent.simps path_name.simps)
        then show ?thesis by blast
      next
        case f5: (Inr f5)
        note renamed[OF k3 n3 f5]
        with o False f5 early ex3 have "?P ?rest1 [(Rename, f5)]"
          by (simp add: unf ws_def f3_def
              del: truediv.simps path_parent.simps path_name.simps)
        then show ?thesis by blast
      qed
    qed
  qed
qed

lemma run_failed:
  assumes "checkpoint_path j = Some cp" and "job_dir j = Some jd" and "is_main j"
    and "mkdir_parents f0 wd jd = (Inl e, f1)"
  shows "write_checkpoint_run ser j data wd f0 = (Inl e, [(MkJobDir, f1)])"
  using assms by (simp add: write_checkpoint_run_def)


lemma run_success_last:
  assumes cp: "checkpoint_path j = Some (Path a (cs @ [''ckpt.pth'']))"
    and jd: "job_dir j = Some (Path a cs)"
    and main: "is_main j"
    and ok: "write_checkpoint_run ser j data wd f0 = (Inr (), steps)"
  shows "resolve (last (f0 # map snd steps)) wd (Path a (cs @ [''ckpt.pth''])) =
           Inr (File (ser data))"
proof (cases "mkdir_parents f0 wd (Path a cs)")
  case (Pair r0 f1)
  show ?thesis
  proof (cases r0)
  case (Inl e)
  from run_failed[OF cp jd main Pair[unfolded Inl], of ser data] ok show ?thesis by simp
next
  case (Inr u)
  then have Inr: "mkdir_parents f0 wd (Path a cs) = (Inr (), f1)" using Pair by simp
  from ok have r: "fst (write_checkpoint_run ser j data wd f0) = Inr ()"
    and st: "snd (write_checkpoint_run ser j data wd f0) = steps" by simp_all
  from run_analysis[OF cp jd main Inr, of ser data] r obtain rest1 rest2
    where run: "snd (write_checkpoint_run ser j data wd f0) = (MkJobDir, f1) # rest1 @ rest2"
      and late: "(\<exists>f4 f5. rest2 = [(UnlinkOld, f4), (Rename, f5)] \<and>
               resolve f5 wd (Path a (cs @ [''ckpt.pth''])) = Inr (File (ser data))) \<or>
            (\<exists>f5. rest2 = [(Rename, f5)] \<and>
               resolve f5 wd (Path a (cs @ [''ckpt.pth''])) = Inr (File (ser data)))"
    by blast
  from run st have "steps = (MkJobDir, f1) # rest1 @ rest2" by simp
  with late show ?thesis by auto
qed
qed





lemma read_checkpoint_record:
  assumes "checkpoint_path j = Some cp" and "resolve (fs w) (cwd w) cp = Inr (File b)"
    and "de b = Some data"
  shows "read_checkpoint de j w = Inr (Some data)"
  using assms
  by (simp add: read_checkpoint_def checkpoint_exists_def is_file_def torch_load_def)

lemma main_job_fields:
  assumes "JobOutput_init g n c True now w0 = (Inr j, w1)" and "job_enabled n"
    and "job_dir_of g n = Path a cs"
  shows "checkpoint_path j = Some (Path a (cs @ [''ckpt.pth'']))"
    and "job_dir j = Some (Path a cs)" and "is_main j"
    and "checkpoint_path_of g n = Path a (cs @ [''ckpt.pth''])"
  using checkpoint_path_shape[OF assms(3)] assms(3)
  by (simp_all add: init_fields[OF assms(1,2)])

lemma write_checkpoint_saved:
  assumes cp: "checkpoint_path j = Some (Path a (cs @ [''ckpt.pth'']))"
    and jd: "job_dir j = Some (Path a cs)"
    and main: "is_main j"
    and ok: "write_checkpoint ser j data w = (Inr (), w')"
  shows "resolve (fs w') (cwd w') (Path a (cs @ [''ckpt.pth''])) = Inr (File (ser data))"
proof -
  obtain steps where run: "write_checkpoint_run ser j data (cwd w) (fs w) = (Inr (), steps)"
    and w': "w' = w\<lparr>fs := last (fs w # map snd steps)\<rparr>"
    using ok by (auto simp: write_checkpoint_def split: prod.splits)
  have "fs w' = last (fs w # map snd steps)" and "cwd w' = cwd w" by (simp_all add: w')
  with run_success_last[OF cp jd main run] show ?thesis by simp
qed

section \<open>The states of a save\<close>




text \<open>
  Why the next statements ask for a job directory path without a \<open>..\<close> component. For
  the job \<open>exp1/a/..\<close> the checkpoint path is \<^verbatim>\<open>logs_and_output/exp1/a/../ckpt.pth\<close>.
  Before the save it resolves to nothing, as \<^verbatim>\<open>a\<close> does not exist; the first step of the
  save makes \<^verbatim>\<open>a\<close>, and from then on the path names the file \<^verbatim>\<open>ckpt.pth\<close> of the group
  directory.
\<close>

lemma job_dir_detour_moves_checkpoint:
  "JobOutput_init ''exp1'' ''a/..'' False True noon detour_world =
     (Inr detour_job, detour_started_world) \<and>
   resolve (fs detour_started_world) (cwd detour_started_world)
     (checkpoint_path_of ''exp1'' ''a/..'') = Inl FileNotFoundError \<and>
   fst (hd (snd (write_checkpoint_run frame detour_job ''B'' (cwd detour_started_world)
                   (fs detour_started_world)))) = MkJobDir \<and>
   resolve (snd (hd (snd (write_checkpoint_run frame detour_job ''B'' (cwd detour_started_world)
                            (fs detour_started_world)))))
     (cwd detour_started_world) (checkpoint_path_of ''exp1'' ''a/..'') = Inr (File ''<A>'')"
proof -
  have "resolve (fs detour_started_world) (cwd detour_started_world)
          (checkpoint_path_of ''exp1'' ''a/..'') = Inl FileNotFoundError"
    by code_simp
  moreover have
    "fst (hd (snd (write_checkpoint_run frame detour_job ''B'' (cwd detour_started_world)
                     (fs detour_started_world)))) = MkJobDir"
    by code_simp
  moreover have
    "resolve (snd (hd (snd (write_checkpoint_run frame detour_job ''B'' (cwd detour_started_world)
                              (fs detour_started_world)))))
       (cwd detour_started_world) (checkpoint_path_of ''exp1'' ''a/..'') = Inr (File ''<A>'')"
    by code_simp
  ultimately show ?thesis using init_detour_job by simp
qed






text \<open>
  Claim C5. For a record that the codec reads back from its own bytes, when
  \<open>write_checkpoint\<close> on the object of a main construction with an enabled job name has
  returned, \<open>read_checkpoint\<close> in the world it left returns that record.
\<close>

theorem checkpoint_round_trip:
  assumes "JobOutput_init job_group job_name continue_job True now w0 = (Inr j, w1)"
    and "job_enabled job_name"
    and "de (ser data) = Some data"
    and "write_checkpoint ser j data w = (Inr (), w')"
  shows "read_checkpoint de j w' = Inr (Some data)"
proof -
  obtain a cs where jd: "job_dir_of job_group job_name = Path a cs"
    by (cases "job_dir_of job_group job_name")
  note j = main_job_fields[OF assms(1,2) jd]
  from write_checkpoint_saved[OF j(1,2,3) assms(4)]
  have "resolve (fs w') (cwd w') (Path a (cs @ [''ckpt.pth''])) = Inr (File (ser data))" .
  then show ?thesis using assms(3) by (rule read_checkpoint_record[OF j(1)])
qed

theorem checkpoint_round_trip_witness:
  "JobOutput_init ''exp1'' ''run1'' False True noon fresh_world = (Inr main_job, started_world) \<and>
   job_enabled ''run1'' \<and>
   unframe (frame ''B'') = Some ''B'' \<and>
   write_checkpoint frame main_job ''B'' saved_world = (Inr (), resaved_world) \<and>
   read_checkpoint unframe main_job resaved_world = Inr (Some ''B'')"
proof -
  have c: "unframe (frame ''B'') = Some ''B''" by code_simp
  have d: "write_checkpoint frame main_job ''B'' saved_world = (Inr (), resaved_world)"
    by code_simp
  from checkpoint_round_trip[where de = unframe and ser = frame, OF init_main_job run1_enabled c d]
    init_main_job run1_enabled c d
  show ?thesis by simp
qed

section \<open>The job directory\<close>

















section \<open>Disabled jobs\<close>


text \<open>
  Why the next statement speaks of a group directory path without \<open>..\<close>. For the job
  group \<^verbatim>\<open>x/../c\<close>, with a regular file \<^verbatim>\<open>c\<close> in \<^verbatim>\<open>logs_and_output\<close>, \<open>mkdir\<close> makes the
  directory \<^verbatim>\<open>x\<close> on its way and then raises \<open>FileExistsError\<close>: the directory stays.
\<close>

lemma group_detour_leaves_directory:
  "JobOutput_init ''x/../c'' '''' False True noon
     (at_work [(''logs_and_output'', Dir [(''c'', File [])])]) =
   (Inl FileExistsError,
    at_work [(''logs_and_output'', Dir [(''c'', File []), (''x'', Dir [])])])"
  by code_simp



end
